theory Spec2Isabelle
  imports Complex_Main
begin

section \<open>Float values\<close>

text \<open>
  The program computes on C++ \<^verbatim>\<open>float\<close> values, and on \<^verbatim>\<open>double\<close> where \<^verbatim>\<open>pow\<close> and
  \<^verbatim>\<open>sqrt\<close> of \<^verbatim>\<open><cmath>\<close> are involved: IEEE 754 binary32 and binary64, every operation
  rounded to nearest, ties to even, on its own and in the type the C++ rules give it (no
  excess precision, no fused multiply-add). A value is a finite number or one of the three
  special values, and one type holds both formats, since every \<^verbatim>\<open>float\<close> is a
  \<^verbatim>\<open>double\<close>: an operation says in which format it rounds. The sign of zero is not
  modelled: every divisor of the program that can be zero is a square root, a square, or a
  sum started at \<^verbatim>\<open>0.f\<close>, hence \<open>+0\<close>, which is what \<open>Fin 0\<close> stands for in the
  divisions.
\<close>

datatype float = Fin real | PInf | NInf | NaN

text \<open>The infinity of the sign of a non-zero finite number.\<close>

definition inf_of_sign :: "real \<Rightarrow> float" where
  "inf_of_sign s = (if 0 < s then PInf else NInf)"

text \<open>The nearest integer, the even one of two that are equally near.\<close>

definition round_half_even :: "real \<Rightarrow> int" where
  "round_half_even x =
     (let f = \<lfloor>x\<rfloor>; d = x - of_int f
      in if d < 1 / 2 then f else if 1 / 2 < d then f + 1 else if even f then f else f + 1)"

text \<open>
  Rounding a real number to the format of precision \<open>p\<close> with exponents from \<open>emin\<close> to
  \<open>emax\<close>: the spacing \<open>u\<close> of the format at \<open>r\<close> is \<open>2\<close> to the exponent of \<open>r\<close> (at least
  \<open>emin\<close>, where the subnormal numbers are) less \<open>p - 1\<close>; \<open>r\<close> goes to the nearest multiple
  of \<open>u\<close>, and to an infinity when that is beyond the largest finite number.
\<close>

definition round_to :: "int \<Rightarrow> int \<Rightarrow> int \<Rightarrow> real \<Rightarrow> float" where
  "round_to p emin emax r =
     (if r = 0 then Fin 0
      else
        (let e = max \<lfloor>log 2 \<bar>r\<bar>\<rfloor> emin;
             u = 2 powi (e - p + 1);
             v = of_int (round_half_even (r / u)) * u
         in if 2 powi (emax + 1) \<le> \<bar>v\<bar> then inf_of_sign r else Fin v))"

definition to_float :: "real \<Rightarrow> float" where
  "to_float r = round_to 24 (- 126) 127 r"

definition to_double :: "real \<Rightarrow> float" where
  "to_double r = round_to 53 (- 1022) 1023 r"

text \<open>The conversion of a \<^verbatim>\<open>double\<close> to \<^verbatim>\<open>float\<close>, as in \<^verbatim>\<open>float distance = sqrt(...)\<close>.\<close>

fun narrow :: "float \<Rightarrow> float" where
  "narrow (Fin a) = to_float a"
| "narrow PInf = PInf"
| "narrow NInf = NInf"
| "narrow NaN = NaN"

fun fneg :: "float \<Rightarrow> float" where
  "fneg (Fin a) = Fin (- a)"
| "fneg PInf = NInf"
| "fneg NInf = PInf"
| "fneg NaN = NaN"

text \<open>\<^verbatim>\<open>+\<close> on two \<^verbatim>\<open>float\<close>s, and on two \<^verbatim>\<open>double\<close>s.\<close>

fun fadd :: "float \<Rightarrow> float \<Rightarrow> float" where
  "fadd (Fin a) (Fin b) = to_float (a + b)"
| "fadd (Fin a) PInf = PInf"
| "fadd (Fin a) NInf = NInf"
| "fadd PInf (Fin b) = PInf"
| "fadd PInf PInf = PInf"
| "fadd PInf NInf = NaN"
| "fadd NInf (Fin b) = NInf"
| "fadd NInf NInf = NInf"
| "fadd NInf PInf = NaN"
| "fadd NaN b = NaN"
| "fadd a NaN = NaN"

fun dadd :: "float \<Rightarrow> float \<Rightarrow> float" where
  "dadd (Fin a) (Fin b) = to_double (a + b)"
| "dadd (Fin a) PInf = PInf"
| "dadd (Fin a) NInf = NInf"
| "dadd PInf (Fin b) = PInf"
| "dadd PInf PInf = PInf"
| "dadd PInf NInf = NaN"
| "dadd NInf (Fin b) = NInf"
| "dadd NInf NInf = NInf"
| "dadd NInf PInf = NaN"
| "dadd NaN b = NaN"
| "dadd a NaN = NaN"

definition fsub :: "float \<Rightarrow> float \<Rightarrow> float" where
  "fsub a b = fadd a (fneg b)"

fun fmul :: "float \<Rightarrow> float \<Rightarrow> float" where
  "fmul (Fin a) (Fin b) = to_float (a * b)"
| "fmul (Fin a) PInf = (if a = 0 then NaN else inf_of_sign a)"
| "fmul (Fin a) NInf = (if a = 0 then NaN else inf_of_sign (- a))"
| "fmul PInf (Fin b) = (if b = 0 then NaN else inf_of_sign b)"
| "fmul NInf (Fin b) = (if b = 0 then NaN else inf_of_sign (- b))"
| "fmul PInf PInf = PInf"
| "fmul PInf NInf = NInf"
| "fmul NInf PInf = NInf"
| "fmul NInf NInf = PInf"
| "fmul NaN b = NaN"
| "fmul a NaN = NaN"

text \<open>\<^verbatim>\<open>/\<close> on two \<^verbatim>\<open>float\<close>s, and on a \<^verbatim>\<open>float\<close> and a \<^verbatim>\<open>double\<close>, which is a \<^verbatim>\<open>double\<close>.\<close>

fun fdiv :: "float \<Rightarrow> float \<Rightarrow> float" where
  "fdiv (Fin a) (Fin b) =
     (if b = 0 then (if a = 0 then NaN else inf_of_sign a) else to_float (a / b))"
| "fdiv (Fin a) PInf = Fin 0"
| "fdiv (Fin a) NInf = Fin 0"
| "fdiv PInf (Fin b) = (if 0 \<le> b then PInf else NInf)"
| "fdiv NInf (Fin b) = (if 0 \<le> b then NInf else PInf)"
| "fdiv PInf PInf = NaN"
| "fdiv PInf NInf = NaN"
| "fdiv NInf PInf = NaN"
| "fdiv NInf NInf = NaN"
| "fdiv NaN b = NaN"
| "fdiv a NaN = NaN"

fun ddiv :: "float \<Rightarrow> float \<Rightarrow> float" where
  "ddiv (Fin a) (Fin b) =
     (if b = 0 then (if a = 0 then NaN else inf_of_sign a) else to_double (a / b))"
| "ddiv (Fin a) PInf = Fin 0"
| "ddiv (Fin a) NInf = Fin 0"
| "ddiv PInf (Fin b) = (if 0 \<le> b then PInf else NInf)"
| "ddiv NInf (Fin b) = (if 0 \<le> b then NInf else PInf)"
| "ddiv PInf PInf = NaN"
| "ddiv PInf NInf = NaN"
| "ddiv NInf PInf = NaN"
| "ddiv NInf NInf = NaN"
| "ddiv NaN b = NaN"
| "ddiv a NaN = NaN"

text \<open>\<^verbatim>\<open>sqrt\<close> of \<^verbatim>\<open><cmath>\<close>, on a \<^verbatim>\<open>double\<close>.\<close>

fun dsqrt :: "float \<Rightarrow> float" where
  "dsqrt (Fin a) = (if a < 0 then NaN else to_double (sqrt a))"
| "dsqrt PInf = PInf"
| "dsqrt NInf = NaN"
| "dsqrt NaN = NaN"

text \<open>
  \<^verbatim>\<open>pow(v, 2)\<close> of \<^verbatim>\<open><cmath>\<close>, the only exponent the program uses: its \<^verbatim>\<open>float\<close> argument
  is converted to \<^verbatim>\<open>double\<close> and the result is a \<^verbatim>\<open>double\<close>.
\<close>

fun pow2 :: "float \<Rightarrow> float" where
  "pow2 (Fin a) = to_double (a * a)"
| "pow2 PInf = PInf"
| "pow2 NInf = PInf"
| "pow2 NaN = NaN"

text \<open>The comparisons \<^verbatim>\<open><\<close> and \<^verbatim>\<open>!=\<close>: a NaN is unordered and differs from everything.\<close>

fun fless :: "float \<Rightarrow> float \<Rightarrow> bool" where
  "fless (Fin a) (Fin b) = (a < b)"
| "fless (Fin a) PInf = True"
| "fless NInf (Fin b) = True"
| "fless NInf PInf = True"
| "fless a b = False"

fun fneq :: "float \<Rightarrow> float \<Rightarrow> bool" where
  "fneq NaN b = True"
| "fneq a NaN = True"
| "fneq a b = (a \<noteq> b)"

section \<open>SFML value types\<close>

text \<open>
  \<^verbatim>\<open>sf::Vector2f\<close> with the operators of SFML 2: all of them work componentwise
  (\<^verbatim>\<open>v * s\<close>, \<^verbatim>\<open>s * v\<close>, \<^verbatim>\<open>v / s\<close> take a scalar \<^verbatim>\<open>s\<close>).
\<close>

record Vector2f =
  vx :: float
  vy :: float

definition vzero :: Vector2f where
  "vzero = \<lparr>vx = Fin 0, vy = Fin 0\<rparr>"

definition vadd :: "Vector2f \<Rightarrow> Vector2f \<Rightarrow> Vector2f" where
  "vadd u v = \<lparr>vx = fadd (vx u) (vx v), vy = fadd (vy u) (vy v)\<rparr>"

definition vsub :: "Vector2f \<Rightarrow> Vector2f \<Rightarrow> Vector2f" where
  "vsub u v = \<lparr>vx = fsub (vx u) (vx v), vy = fsub (vy u) (vy v)\<rparr>"

definition vmul :: "Vector2f \<Rightarrow> float \<Rightarrow> Vector2f" where
  "vmul v s = \<lparr>vx = fmul (vx v) s, vy = fmul (vy v) s\<rparr>"

definition smul :: "float \<Rightarrow> Vector2f \<Rightarrow> Vector2f" where
  "smul s v = \<lparr>vx = fmul (vx v) s, vy = fmul (vy v) s\<rparr>"

definition vdiv :: "Vector2f \<Rightarrow> float \<Rightarrow> Vector2f" where
  "vdiv v s = \<lparr>vx = fdiv (vx v) s, vy = fdiv (vy v) s\<rparr>"

text \<open>
  \<^verbatim>\<open>sf::CircleShape\<close>: the radius given to the constructor and the position of the
  drawable, which starts at the origin. \<^verbatim>\<open>sf::Color\<close> is its four channels.
\<close>

record CircleShape =
  m_radius :: float
  m_position :: Vector2f

definition CircleShape_new :: "float \<Rightarrow> CircleShape" where
  "CircleShape_new r = \<lparr>m_radius = r, m_position = vzero\<rparr>"

definition getRadius :: "CircleShape \<Rightarrow> float" where
  "getRadius s = m_radius s"

definition setPosition :: "CircleShape \<Rightarrow> Vector2f \<Rightarrow> CircleShape" where
  "setPosition s p = s\<lparr>m_position := p\<rparr>"

datatype Color = Color nat nat nat nat

definition Color_default :: Color where
  "Color_default = Color 0 0 0 255"

section \<open>The simulation core of main.cpp\<close>

text \<open>The constants \<^verbatim>\<open>0.1f\<close> and \<^verbatim>\<open>0.5f\<close>: the \<^verbatim>\<open>float\<close> nearest to one tenth, and one half.\<close>

definition G :: float where
  "G = Fin (13421773 / 134217728)"

definition theta :: float where
  "theta = Fin (1 / 2)"

record Node =
  position :: Vector2f
  velocity :: Vector2f
  force :: Vector2f
  shape :: CircleShape
  color :: Color

text \<open>
  The expression \<^verbatim>\<open>sqrt(pow(d.x, 2) + pow(d.y, 2))\<close>, which the source writes out in
  \<^verbatim>\<open>calculateForce\<close>, \<^verbatim>\<open>applyBarnesHut\<close>, \<^verbatim>\<open>overlap\<close> and \<^verbatim>\<open>resolveOverlap\<close>: a \<^verbatim>\<open>double\<close>.
\<close>

definition hypot2 :: "float \<Rightarrow> float \<Rightarrow> float" where
  "hypot2 dx dy = dsqrt (dadd (pow2 dx) (pow2 dy))"

definition calculateForce :: "Node \<Rightarrow> Node \<Rightarrow> Vector2f" where
  "calculateForce a b =
     (let direction = vsub (position b) (position a);
          distance = narrow (hypot2 (vx direction) (vy direction));
          direction = (if fneq distance (Fin 0) then vdiv direction distance else direction);
          forceMagnitude =
            narrow (ddiv (fmul (fmul G (getRadius (shape a))) (getRadius (shape b)))
                         (pow2 distance))
      in vmul direction forceMagnitude)"

definition applyForces :: "Node \<Rightarrow> float \<Rightarrow> Node" where
  "applyForces node timeStep =
     (let node = node\<lparr>velocity := vadd (velocity node) (vmul (force node) timeStep)\<rparr>;
          node = node\<lparr>position := vadd (position node) (vmul (velocity node) timeStep)\<rparr>;
          node = node\<lparr>force := vzero\<rparr>
      in node\<lparr>shape := setPosition (shape node) (position node)\<rparr>)"

text \<open>
  \<^verbatim>\<open>updateForces(node, nodes)\<close>: \<^verbatim>\<open>node\<close> is a reference into \<^verbatim>\<open>nodes\<close>, given here as
  its index \<open>i\<close>, and the test \<^verbatim>\<open>&node != &otherNode\<close> compares indices. The vector is
  threaded through the loop, since the body writes to it.
\<close>

definition updateForces_body :: "nat \<Rightarrow> nat \<Rightarrow> Node list \<Rightarrow> Node list" where
  "updateForces_body i j nodes =
     (if i \<noteq> j
      then nodes[i := (nodes ! i)\<lparr>force :=
             vadd (force (nodes ! i)) (calculateForce (nodes ! i) (nodes ! j))\<rparr>]
      else nodes)"

definition updateForces :: "nat \<Rightarrow> Node list \<Rightarrow> Node list" where
  "updateForces i nodes = fold (updateForces_body i) [0..<length nodes] nodes"

text \<open>The loop of the centroid branch: it reads the vector and accumulates two locals.\<close>

definition centroid_body :: "nat \<Rightarrow> Node list \<Rightarrow> nat \<Rightarrow> Vector2f \<times> float \<Rightarrow> Vector2f \<times> float" where
  "centroid_body i nodes j acc =
     (if i \<noteq> j
      then (vadd (fst acc) (smul (getRadius (shape (nodes ! j))) (position (nodes ! j))),
            fadd (snd acc) (getRadius (shape (nodes ! j))))
      else acc)"

definition applyBarnesHut :: "nat \<Rightarrow> Node list \<Rightarrow> Vector2f \<Rightarrow> float \<Rightarrow> Node list" where
  "applyBarnesHut i nodes center size' =
     (let node = nodes ! i in
      if fless (ddiv size' (hypot2 (fsub (vx center) (vx (position node)))
                                  (fsub (vy center) (vy (position node))))) theta
      then nodes[i := node\<lparr>force := vadd (force node) (calculateForce node (nodes ! 0))\<rparr>]
      else
        (let acc = fold (centroid_body i nodes) [0..<length nodes] (vzero, Fin 0);
             centerOfMass = vdiv (fst acc) (snd acc);
             aggregate = \<lparr>position = centerOfMass, velocity = vzero, force = vzero,
                          shape = CircleShape_new size', color = Color_default\<rparr>
         in nodes[i := node\<lparr>force := vadd (force node) (calculateForce node aggregate)\<rparr>]))"

definition overlap :: "Node \<Rightarrow> Node \<Rightarrow> bool" where
  "overlap a b =
     (let distance = narrow (hypot2 (fsub (vx (position a)) (vx (position b)))
                                    (fsub (vy (position a)) (vy (position b))))
      in fless distance (fadd (getRadius (shape a)) (getRadius (shape b))))"

text \<open>\<^verbatim>\<open>resolveOverlap(a, b)\<close> writes to both of its arguments: it returns the pair.\<close>

definition resolveOverlap :: "Node \<Rightarrow> Node \<Rightarrow> Node \<times> Node" where
  "resolveOverlap a b =
     (let direction = vsub (position a) (position b);
          distance = narrow (hypot2 (vx direction) (vy direction));
          overlapAmount =
            fdiv (fsub (fadd (getRadius (shape a)) (getRadius (shape b))) distance) (Fin 2);
          direction = vdiv direction distance;
          a = a\<lparr>position := vadd (position a) (vmul direction overlapAmount)\<rparr>;
          b = b\<lparr>position := vsub (position b) (vmul direction overlapAmount)\<rparr>;
          a = a\<lparr>shape := setPosition (shape a) (position a)\<rparr>;
          b = b\<lparr>shape := setPosition (shape b) (position b)\<rparr>
      in (a, b))"

section \<open>The main loop\<close>

text \<open>
  A node as \<^verbatim>\<open>main\<close> sets one up, but for the random colour: at rest at \<open>(px, py)\<close>, with no
  accumulated force and a circle of radius \<open>r\<close> drawn at its position.
\<close>

definition body_at :: "real \<Rightarrow> real \<Rightarrow> real \<Rightarrow> Node" where
  "body_at px py r =
     \<lparr>position = \<lparr>vx = Fin px, vy = Fin py\<rparr>, velocity = vzero, force = vzero,
      shape = setPosition (CircleShape_new (Fin r)) \<lparr>vx = Fin px, vy = Fin py\<rparr>,
      color = Color_default\<rparr>"

text \<open>
  The states the set-up loop of \<^verbatim>\<open>main\<close> can leave: fifty nodes at
  \<^verbatim>\<open>(rand() % 800, rand() % 600)\<close>, velocity and force zero, \<^verbatim>\<open>CircleShape(10)\<close> moved to the
  position, any colour.
\<close>

definition main_init :: "Node list \<Rightarrow> bool" where
  "main_init nodes \<longleftrightarrow>
     length nodes = 50 \<and>
     list_all (\<lambda>node.
        (\<exists>i\<in>{0..<800::nat}. \<exists>j\<in>{0..<600::nat}.
           position node = \<lparr>vx = Fin (real i), vy = Fin (real j)\<rparr>) \<and>
        velocity node = vzero \<and> force node = vzero \<and>
        shape node = setPosition (CircleShape_new (Fin 10)) (position node)) nodes"

text \<open>The body of the two nested loops over \<^verbatim>\<open>nodes\<close> that resolve the overlaps.\<close>

definition resolve_pair :: "nat \<Rightarrow> nat \<Rightarrow> Node list \<Rightarrow> Node list" where
  "resolve_pair i j nodes =
     (if i \<noteq> j \<and> overlap (nodes ! i) (nodes ! j)
      then (let r = resolveOverlap (nodes ! i) (nodes ! j) in nodes[i := fst r, j := snd r])
      else nodes)"

text \<open>
  One pass of the \<^verbatim>\<open>while (window.isOpen())\<close> loop over the nodes, without the drawing:
  \<^verbatim>\<open>updateForces\<close> for every node, \<^verbatim>\<open>applyBarnesHut\<close> for every node, \<^verbatim>\<open>applyForces\<close>
  with the step \<^verbatim>\<open>0.1f\<close> for every node, then the overlaps. \<open>center\<close> and \<open>size'\<close> are the
  centre and the width of the window's view.
\<close>

definition main_tick :: "Vector2f \<Rightarrow> float \<Rightarrow> Node list \<Rightarrow> Node list" where
  "main_tick center size' nodes =
     (let nodes = fold updateForces [0..<length nodes] nodes;
          nodes = fold (\<lambda>i ns. applyBarnesHut i ns center size') [0..<length nodes] nodes;
          nodes = map (\<lambda>node. applyForces node (Fin (13421773 / 134217728))) nodes;
          nodes = fold (\<lambda>i ns. fold (resolve_pair i) [0..<length ns] ns) [0..<length nodes] nodes
      in nodes)"

text \<open>The states of \<^verbatim>\<open>nodes\<close> at the top of the loop: after the set-up, and after each pass.\<close>

inductive reachable :: "Node list \<Rightarrow> bool" where
  init: "main_init nodes \<Longrightarrow> reachable nodes"
| step: "reachable nodes \<Longrightarrow> reachable (main_tick center size' nodes)"

section \<open>Rounding\<close>

lemma round_half_even_of_int: "round_half_even (of_int m) = m"
  by (simp add: round_half_even_def)

lemma round_half_even_error: "\<bar>of_int (round_half_even x) - x\<bar> \<le> 1 / 2"
  unfolding round_half_even_def Let_def by (auto simp: abs_if) linarith+

lemma round_half_even_nonneg: "0 \<le> x \<Longrightarrow> 0 \<le> round_half_even x"
  unfolding round_half_even_def Let_def by auto 

lemma round_half_even_nonpos: "x \<le> 0 \<Longrightarrow> round_half_even x \<le> 0"
  unfolding round_half_even_def Let_def
  by auto (linarith+)?

lemma floor_log2_eqI:
  "0 < x \<Longrightarrow> 2 powi e \<le> x \<Longrightarrow> x < 2 powi (e + 1) \<Longrightarrow> \<lfloor>log 2 x\<rfloor> = e"
proof -
  assume a: "0 < x" "2 powi e \<le> x" "x < 2 powi (e + 1)"
  have "2 powr real_of_int e = 2 powi e" "2 powr (real_of_int e + 1) = 2 powi (e + 1)"
    using powr_real_of_int' [of 2 e] powr_real_of_int' [of 2 "e + 1"] by simp_all
  then show ?thesis using a by (simp add: floor_log_eq_powr_iff)
qed

lemma round_to_eqI:
  assumes "r \<noteq> 0" "emin \<le> e" "2 powi e \<le> \<bar>r\<bar>" "\<bar>r\<bar> < 2 powi (e + 1)"
    and "round_half_even (r / 2 powi (e - p + 1)) = m"
    and "v = of_int m * 2 powi (e - p + 1)"
    and "\<bar>v\<bar> < 2 powi (emax + 1)"
  shows "round_to p emin emax r = Fin v"
proof -
  have "\<lfloor>log 2 \<bar>r\<bar>\<rfloor> = e" using assms(1,3,4) by (intro floor_log2_eqI) simp_all
  then show ?thesis using assms by (simp add: round_to_def Let_def max_def)
qed

lemma round_to_subnormalI:
  assumes "r \<noteq> 0" "\<bar>r\<bar> < 2 powi emin"
    and "round_half_even (r / 2 powi (emin - p + 1)) = m"
    and "v = of_int m * 2 powi (emin - p + 1)"
    and "\<bar>v\<bar> < 2 powi (emax + 1)"
  shows "round_to p emin emax r = Fin v"
proof -
  have "\<lfloor>log 2 \<bar>r\<bar>\<rfloor> < emin"
  proof (rule ccontr)
    assume "\<not> \<lfloor>log 2 \<bar>r\<bar>\<rfloor> < emin"
    then have "real_of_int emin \<le> log 2 \<bar>r\<bar>" by linarith
    then have "2 powr real_of_int emin \<le> \<bar>r\<bar>"
      using assms(1) by (simp add: le_log_iff)
    then show False using assms(2) by (simp add: powr_real_of_int')
  qed
  then show ?thesis using assms by (simp add: round_to_def Let_def max_def)
qed

lemma two_powi_pos: "0 < (2::real) powi k"
  by simp

lemma round_to_sign:
  assumes "round_to p emin emax r = Fin v"
  shows "(0 \<le> r \<longrightarrow> 0 \<le> v) \<and> (r \<le> 0 \<longrightarrow> v \<le> 0)"
proof (cases "r = 0")
  case True
  then show ?thesis using assms by (simp add: round_to_def)
next
  case False
  define u :: real where "u = 2 powi (max \<lfloor>log 2 \<bar>r\<bar>\<rfloor> emin - p + 1)"
  have u: "0 < u" by (simp add: u_def)
  have v: "v = of_int (round_half_even (r / u)) * u"
    using assms False by (simp add: round_to_def Let_def u_def inf_of_sign_def split: if_splits)
  show ?thesis
  proof (intro conjI impI)
    assume "0 \<le> r"
    then have "0 \<le> r / u" using u by simp
    then have "0 \<le> round_half_even (r / u)" by (rule round_half_even_nonneg)
    then show "0 \<le> v" using u by (simp add: v)
  next
    assume "r \<le> 0"
    then have "r / u \<le> 0" using u by (simp add: divide_nonpos_pos)
    then have "round_half_even (r / u) \<le> 0" by (rule round_half_even_nonpos)
    then show "v \<le> 0" using u by (simp add: v mult_nonpos_nonneg)
  qed
qed

lemma round_half_even_ge_int: "of_int n \<le> x \<Longrightarrow> n \<le> round_half_even x"
  unfolding round_half_even_def Let_def by (auto simp: le_floor_iff) (linarith+)?

lemma round_half_even_le_int: "x \<le> of_int n \<Longrightarrow> round_half_even x \<le> n"
  unfolding round_half_even_def Let_def
  by auto (linarith+)?

text \<open>The error of one rounding, relative to the rounded value.\<close>

lemma round_to_error:
  assumes "round_to p emin emax r = Fin v" "0 < p"
  shows "\<bar>v - r\<bar> \<le> \<bar>v\<bar> / 2 ^ nat p + 2 powi (emin - p)"
proof (cases "r = 0")
  case True
  then show ?thesis using assms by (simp add: round_to_def)
next
  case False
  define l where "l = \<lfloor>log 2 \<bar>r\<bar>\<rfloor>"
  define e where "e = max l emin"
  define u :: real where "u = 2 powi (e - p + 1)"
  have u: "0 < u" by (simp add: u_def)
  define m where "m = round_half_even (r / u)"
  have v: "v = of_int m * u"
    using assms False
    by (simp add: round_to_def Let_def u_def e_def l_def m_def inf_of_sign_def split: if_splits)
  have "\<bar>of_int m - r / u\<bar> \<le> 1 / 2" unfolding m_def by (rule round_half_even_error)
  then have "\<bar>of_int m - r / u\<bar> * u \<le> 1 / 2 * u" using u by (simp add: mult_right_mono)
  moreover have "\<bar>of_int m - r / u\<bar> * u = \<bar>v - r\<bar>"
    using u by (simp add: v abs_mult [symmetric] left_diff_distrib del: abs_mult)
      (simp add: abs_mult [symmetric] field_simps)
  ultimately have err: "\<bar>v - r\<bar> \<le> u / 2" by simp
  have half: "u / 2 = 2 powi (e - p)"
    by (simp add: u_def power_int_add power_int_diff)
  show ?thesis
  proof (cases "emin \<le> l")
    case False
    then have "e = emin" by (simp add: e_def)
    then have "u / 2 = 2 powi (emin - p)" using half by simp
    moreover have "0 \<le> \<bar>v\<bar> / 2 ^ nat p" by simp
    ultimately show ?thesis using err by linarith
  next
    case True
    then have e: "e = l" by (simp add: e_def)
    have "2 powr real_of_int l \<le> \<bar>r\<bar>"
      using False floor_log_eq_powr_iff [of "\<bar>r\<bar>" 2 l] by (simp add: l_def)
    then have lo: "2 powi l \<le> \<bar>r\<bar>" by (simp add: powr_real_of_int')
    have pp: "(2::real) powi (p - 1) = 2 ^ nat (p - 1)" "(2::real) powi p = 2 ^ nat p"
      using assms(2) by (simp_all add: power_int_nonneg_exp)
    have ueq: "u = 2 powi l / 2 powi (p - 1)"
    proof -
      have *: "e - p + 1 = l - (p - 1)" by (simp add: e)
      have "(2::real) powi (l - (p - 1)) = 2 powi l / 2 powi (p - 1)"
        by (rule power_int_diff) simp
      then show ?thesis by (simp only: u_def *)
    qed
    have uN: "of_int (2 ^ nat (p - 1)) * u = 2 powi l"
      by (simp add: ueq pp)
    have big: "2 powi l \<le> \<bar>v\<bar>"
    proof (cases "0 \<le> r")
      case True
      then have "2 powi l \<le> r" using lo by simp
      then have "of_int (2 ^ nat (p - 1)) \<le> r / u"
        using u uN by (simp add: pos_le_divide_eq)
      then have "2 ^ nat (p - 1) \<le> m" unfolding m_def by (rule round_half_even_ge_int)
      then have "real_of_int (2 ^ nat (p - 1)) \<le> of_int m" by (simp only: of_int_le_iff)
      from mult_right_mono [OF this, of u] have "of_int (2 ^ nat (p - 1)) * u \<le> of_int m * u"
        using u by simp
      then show ?thesis using uN v by simp
    next
      case False
      then have "r \<le> - (2 powi l)" using lo by simp
      then have "r / u \<le> of_int (- (2 ^ nat (p - 1)))"
        using u uN by (simp add: pos_divide_le_eq)
      then have "m \<le> - (2 ^ nat (p - 1))" unfolding m_def by (rule round_half_even_le_int)
      then have "real_of_int m \<le> of_int (- (2 ^ nat (p - 1)))" by (simp only: of_int_le_iff)
      from mult_right_mono [OF this, of u] have "of_int m * u \<le> of_int (- (2 ^ nat (p - 1))) * u"
        using u by simp
      then show ?thesis using uN v by simp
    qed
    have "u / 2 = 2 powi l / 2 ^ nat p"
    proof -
      have "nat p = Suc (nat (p - 1))" using assms(2) by simp
      then show ?thesis by (simp add: ueq pp)
    qed
    also have "\<dots> \<le> \<bar>v\<bar> / 2 ^ nat p" using big by (simp add: divide_right_mono)
    finally have "u / 2 \<le> \<bar>v\<bar> / 2 ^ nat p" .
    moreover have "0 \<le> (2::real) powi (emin - p)" by simp
    ultimately show ?thesis using err by linarith
  qed
qed

lemma round_to_exact:
  assumes r: "r = of_int m * 2 powi k" and m: "\<bar>m\<bar> < 2 ^ nat p" and p: "0 < p"
    and k: "emin - p + 1 \<le> k" and hi: "\<bar>r\<bar> < 2 powi (emax + 1)"
  shows "round_to p emin emax r = Fin r"
proof (cases "r = 0")
  case True
  then show ?thesis by (simp add: round_to_def)
next
  case False
  define l where "l = \<lfloor>log 2 \<bar>r\<bar>\<rfloor>"
  define e where "e = max l emin"
  define u :: real where "u = 2 powi (e - p + 1)"
  have "\<bar>r\<bar> = of_int \<bar>m\<bar> * 2 powi k" by (simp add: r abs_mult)
  also have "\<dots> < of_int (2 ^ nat p) * 2 powi k"
    using m by (intro mult_strict_right_mono) (simp_all only: of_int_less_iff two_powi_pos)
  also have "\<dots> = 2 powi (p + k)" using p by (simp add: power_int_add power_int_nonneg_exp)
  finally have "\<bar>r\<bar> < 2 powr real_of_int (p + k)"
    using powr_real_of_int' [of 2 "p + k"] by (simp del: of_int_add)
  then have "log 2 \<bar>r\<bar> < real_of_int (p + k)" using False by (simp add: log_less_iff)
  then have "l < p + k" unfolding l_def by (simp only: floor_less_iff)
  then have j: "0 \<le> k - (e - p + 1)" using k by (simp add: e_def)
  have "r / u = of_int m * (2 powi k / 2 powi (e - p + 1))" by (simp add: r u_def)
  also have "2 powi k / 2 powi (e - p + 1) = (2::real) powi (k - (e - p + 1))"
    by (rule power_int_diff [symmetric]) simp
  also have "\<dots> = 2 ^ nat (k - (e - p + 1))" using j by (rule power_int_nonneg_exp)
  finally have "r / u = of_int (m * 2 ^ nat (k - (e - p + 1)))" by simp
  then have "round_half_even (r / u) = m * 2 ^ nat (k - (e - p + 1))"
    by (simp only: round_half_even_of_int)
  then have "of_int (round_half_even (r / u)) * u = r / u * u"
    using \<open>r / u = of_int (m * 2 ^ nat (k - (e - p + 1)))\<close> by simp
  also have "\<dots> = r" by (simp add: u_def)
  finally have "of_int (round_half_even (r / u)) * u = r" .
  then show ?thesis
    using False hi by (simp add: round_to_def Let_def u_def e_def l_def)
qed

lemma to_float_of_int: "\<bar>m\<bar> < 16777216 \<Longrightarrow> to_float (of_int m) = Fin (of_int m)"
proof -
  assume a: "\<bar>m\<bar> < 16777216"
  then have "\<bar>real_of_int m\<bar> < 16777216" by linarith
  then have "\<bar>real_of_int m\<bar> < 2 powi 128" by simp
  then show ?thesis
    unfolding to_float_def using a
    by (intro round_to_exact [where m = m and k = 0]) simp_all
qed

lemma to_double_of_int: "\<bar>m\<bar> < 9007199254740992 \<Longrightarrow> to_double (of_int m) = Fin (of_int m)"
proof -
  assume a: "\<bar>m\<bar> < 9007199254740992"
  then have "\<bar>real_of_int m\<bar> < 9007199254740992" by linarith
  then have "\<bar>real_of_int m\<bar> < 2 powi 1024" by simp
  then show ?thesis
    unfolding to_double_def using a
    by (intro round_to_exact [where m = m and k = 0]) simp_all
qed

lemma to_float_numeral [simp]:
  "numeral n < (16777216::int) \<Longrightarrow> to_float (numeral n) = Fin (numeral n)"
  "numeral n < (16777216::int) \<Longrightarrow> to_float (- numeral n) = Fin (- numeral n)"
  "to_float 0 = Fin 0" "to_float 1 = Fin 1" "to_float (- 1) = Fin (- 1)"
  using to_float_of_int [of "numeral n"] to_float_of_int [of "- numeral n"]
    to_float_of_int [of 0] to_float_of_int [of 1] to_float_of_int [of "- 1"]
  by simp_all

lemma to_double_numeral [simp]:
  "numeral n < (9007199254740992::int) \<Longrightarrow> to_double (numeral n) = Fin (numeral n)"
  "numeral n < (9007199254740992::int) \<Longrightarrow> to_double (- numeral n) = Fin (- numeral n)"
  "to_double 0 = Fin 0" "to_double 1 = Fin 1" "to_double (- 1) = Fin (- 1)"
  using to_double_of_int [of "numeral n"] to_double_of_int [of "- numeral n"]
    to_double_of_int [of 0] to_double_of_int [of 1] to_double_of_int [of "- 1"]
  by simp_all


section \<open>Special values and concrete roundings\<close>

lemma fadd_NaN_right [simp]: "fadd a NaN = NaN"
  by (cases a) simp_all

lemma fmul_NaN_right [simp]: "fmul a NaN = NaN"
  by (cases a) simp_all

lemma fdiv_NaN_right [simp]: "fdiv a NaN = NaN"
  by (cases a) simp_all

lemma ddiv_NaN_right [simp]: "ddiv a NaN = NaN"
  by (cases a) simp_all

lemma sqrt_of_square: "0 \<le> r \<Longrightarrow> s = r * r \<Longrightarrow> sqrt s = (r::real)"
  by simp

lemma body_at_fields:
  "position (body_at px py r) = \<lparr>vx = Fin px, vy = Fin py\<rparr>"
  "velocity (body_at px py r) = vzero"
  "force (body_at px py r) = vzero"
  "getRadius (shape (body_at px py r)) = Fin r"
  by (simp_all add: body_at_def getRadius_def setPosition_def CircleShape_new_def)

lemma to_float_G_times_10: "to_float (67108865 / 67108864) = Fin 1"
  unfolding to_float_def
  by (rule round_to_eqI [where e = "0" and m = "8388608"]) (simp_all add: round_half_even_def)

lemma to_double_8_3: "to_double (8 / 3) = Fin (6004799503160661 / 2251799813685248)"
  unfolding to_double_def
  by (rule round_to_eqI [where e = "1" and m = "6004799503160661"]) (simp_all add: round_half_even_def)

section \<open>The force law\<close>

text \<open>
  C1. The claim is that \<open>calculateForce\<close> returns the zero vector for two coincident
  bodies. The code does not: for two nodes of radius 10 at the origin it returns NaN in
  both components.
\<close>

theorem calculateForce_coincident_is_NaN:
  "calculateForce (body_at 0 0 10) (body_at 0 0 10) = \<lparr>vx = NaN, vy = NaN\<rparr>"
  by (simp add: calculateForce_def body_at_fields hypot2_def vsub_def fsub_def vmul_def vdiv_def
      G_def inf_of_sign_def Let_def to_float_G_times_10)


lemma round_to_overflowI:
  assumes "r \<noteq> 0" "emin \<le> e" "2 powi e \<le> \<bar>r\<bar>" "\<bar>r\<bar> < 2 powi (e + 1)"
    and "round_half_even (r / 2 powi (e - p + 1)) = m"
    and "(2::real) powi (emax + 1) \<le> \<bar>of_int m * 2 powi (e - p + 1)\<bar>"
  shows "round_to p emin emax r = inf_of_sign r"
proof -
  have "\<lfloor>log 2 \<bar>r\<bar>\<rfloor> = e" using assms(1,3,4) by (intro floor_log2_eqI) simp_all
  then show ?thesis using assms by (simp add: round_to_def Let_def max_def)
qed

lemma to_float_sign:
  "to_float r = Fin v \<Longrightarrow> (0 \<le> r \<longrightarrow> 0 \<le> v) \<and> (r \<le> 0 \<longrightarrow> v \<le> 0)"
  unfolding to_float_def by (rule round_to_sign)

lemma to_double_sign:
  "to_double r = Fin v \<Longrightarrow> (0 \<le> r \<longrightarrow> 0 \<le> v) \<and> (r \<le> 0 \<longrightarrow> v \<le> 0)"
  unfolding to_double_def by (rule round_to_sign)

lemma narrow_FinD: "narrow x = Fin v \<Longrightarrow> \<exists>a. x = Fin a \<and> to_float a = Fin v"
  by (cases x) simp_all

lemma fadd_FinD: "fadd x y = Fin v \<Longrightarrow> \<exists>a b. x = Fin a \<and> y = Fin b \<and> to_float (a + b) = Fin v"
  by (cases x; cases y) simp_all

lemma fneg_FinD: "fneg x = Fin v \<Longrightarrow> x = Fin (- v)"
  by (cases x) auto

lemma fmul_FinD: "fmul x y = Fin v \<Longrightarrow> \<exists>a b. x = Fin a \<and> y = Fin b \<and> to_float (a * b) = Fin v"
  by (cases x; cases y) (simp_all add: inf_of_sign_def split: if_splits)

lemma fdiv_FinD:
  "fdiv x (Fin d) = Fin v \<Longrightarrow> \<exists>a. x = Fin a \<and> d \<noteq> 0 \<and> to_float (a / d) = Fin v"
  by (cases x) (simp_all add: inf_of_sign_def split: if_splits)

lemma dsqrt_FinD: "dsqrt x = Fin v \<Longrightarrow> \<exists>a. x = Fin a \<and> 0 \<le> a \<and> to_double (sqrt a) = Fin v"
  by (cases x) (simp_all split: if_splits)

lemma hypot2_narrow_nonneg:
  assumes "narrow (hypot2 x y) = Fin d"
  shows "0 \<le> d"
proof -
  obtain h where h: "hypot2 x y = Fin h" "to_float h = Fin d"
    using narrow_FinD [OF assms] by blast
  obtain s where s: "0 \<le> s" "to_double (sqrt s) = Fin h"
    using dsqrt_FinD [OF h(1) [unfolded hypot2_def]] by blast
  have "0 \<le> h" using to_double_sign [OF s(2)] s(1) by simp
  then show ?thesis using to_float_sign [OF h(2)] by simp
qed

text \<open>
  The magnitude of the force, when it is finite, is not negative for positive radii.
\<close>

lemma forceMagnitude_nonneg:
  assumes "narrow (ddiv (fmul (fmul G (Fin ra)) (Fin rb)) (pow2 (Fin d))) = Fin m"
    and "0 < ra" "0 < rb"
  shows "0 \<le> m"
proof -
  obtain q where q: "ddiv (fmul (fmul G (Fin ra)) (Fin rb)) (pow2 (Fin d)) = Fin q"
      "to_float q = Fin m"
    using narrow_FinD [OF assms(1)] by blast
  have "0 \<le> q"
  proof (cases "fmul (fmul G (Fin ra)) (Fin rb)")
    case (Fin g)
    obtain g1 where g1: "fmul G (Fin ra) = Fin g1" "to_float (g1 * rb) = Fin g"
      using fmul_FinD [OF Fin] by auto
    have "to_float (13421773 / 134217728 * ra) = Fin g1" using g1(1) by (simp add: G_def)
    then have "0 \<le> g1" using to_float_sign [of "13421773 / 134217728 * ra" g1] assms(2) by simp
    then have g: "0 \<le> g" using to_float_sign [OF g1(2)] assms(3) by simp
    show ?thesis
    proof (cases "to_double (d * d)")
      case (Fin s)
      then have "0 \<le> s" using to_double_sign [of "d * d" s] by simp
      then have "0 \<le> g / s" using g by simp
      moreover have "s \<noteq> 0 \<and> to_double (g / s) = Fin q"
        using q(1) \<open>fmul (fmul G (Fin ra)) (Fin rb) = Fin g\<close> Fin
        by (simp add: inf_of_sign_def split: if_splits)
      ultimately show ?thesis using to_double_sign [of "g / s" q] by simp
    qed (use q(1) \<open>fmul (fmul G (Fin ra)) (Fin rb) = Fin g\<close> in simp_all)
  qed (use q(1) in \<open>cases "pow2 (Fin d)"; simp split: if_splits\<close>)+
  then show ?thesis using to_float_sign [OF q(2)] by simp
qed

text \<open>
  A finite component of the force has the sign of the difference of the positions, or is zero.
\<close>

lemma force_component_sign:
  assumes "fmul (fdiv (fsub (Fin q) (Fin p)) (Fin d)) (Fin m) = Fin f" "0 \<le> d" "0 \<le> m"
  shows "0 \<le> f * (q - p)"
proof -
  obtain u where u: "fdiv (fsub (Fin q) (Fin p)) (Fin d) = Fin u" "to_float (u * m) = Fin f"
    using fmul_FinD [OF assms(1)] by auto
  obtain e where e: "fsub (Fin q) (Fin p) = Fin e" "d \<noteq> 0" "to_float (e / d) = Fin u"
    using fdiv_FinD [OF u(1)] by auto
  have e': "to_float (q - p) = Fin e" using e(1) by (simp add: fsub_def)
  have d: "0 < d" using assms(2) e(2) by simp
  show ?thesis
  proof (cases "0 \<le> q - p")
    case True
    then have "0 \<le> e" using to_float_sign [OF e'] by simp
    then have "0 \<le> e / d" using d by simp
    then have "0 \<le> u" using to_float_sign [OF e(3)] by simp
    then have "0 \<le> u * m" using assms(3) by simp
    then have "0 \<le> f" using to_float_sign [OF u(2)] by simp
    then show ?thesis using True by simp
  next
    case False
    then have "e \<le> 0" using to_float_sign [OF e'] by simp
    then have "e / d \<le> 0" using d by (simp add: divide_nonpos_pos)
    then have "u \<le> 0" using to_float_sign [OF e(3)] by simp
    then have "u * m \<le> 0" using assms(3) by (simp add: mult_nonpos_nonneg)
    then have "f \<le> 0" using to_float_sign [OF u(2)] by simp
    then show ?thesis using False by (simp add: mult_nonpos_nonpos)
  qed
qed

lemma sqrt_val_1: "sqrt 10000 = 100"
  by (rule sqrt_of_square) simp_all

lemma round_val_2: "to_float (67108865 / 67108864) = Fin 1"
  unfolding to_float_def
  by (rule round_to_eqI [where e = "0" and m = "8388608"]) (simp_all add: round_half_even_def)

lemma round_val_3: "to_double (1 / 1000) = Fin (1152921504606847 / 1152921504606846976)"
  unfolding to_double_def
  by (rule round_to_eqI [where e = "-10" and m = "4611686018427388"]) (simp_all add: round_half_even_def)

lemma round_val_4: "to_float (1152921504606847 / 1152921504606846976) = Fin (8589935 / 8589934592)"
  unfolding to_float_def
  by (rule round_to_eqI [where e = "-10" and m = "8589935"]) (simp_all add: round_half_even_def)

lemma round_val_5: "to_float (8589935 / 8589934592) = Fin (8589935 / 8589934592)"
  unfolding to_float_def
  by (rule round_to_eqI [where e = "-10" and m = "8589935"]) (simp_all add: round_half_even_def)

lemma sqrt_val_6: "sqrt (73786983304225 / 73786976294838206464) = 8589935 / 8589934592"
  by (rule sqrt_of_square) simp_all

lemma round_val_7: "to_double (73786983304225 / 73786976294838206464) = Fin (73786983304225 / 73786976294838206464)"
  unfolding to_double_def
  by (rule round_to_eqI [where e = "-20" and m = "4722366931470400"]) (simp_all add: round_half_even_def)

lemma round_val_8: "to_double (8589935 / 8589934592) = Fin (8589935 / 8589934592)"
  unfolding to_double_def
  by (rule round_to_eqI [where e = "-10" and m = "4611686237470720"]) (simp_all add: round_half_even_def)

lemma sqrt_val_9: "sqrt 1461501637330902918203684832716283019655932542976 = 1208925819614629174706176"
  by (rule sqrt_of_square) simp_all

lemma round_val_10: "to_float 1208925819614629174706176 = Fin 1208925819614629174706176"
  unfolding to_float_def
  by (rule round_to_eqI [where e = "80" and m = "8388608"]) (simp_all add: round_half_even_def)

lemma round_val_11: "to_double 1461501637330902918203684832716283019655932542976 = Fin 1461501637330902918203684832716283019655932542976"
  unfolding to_double_def
  by (rule round_to_eqI [where e = "160" and m = "4503599627370496"]) (simp_all add: round_half_even_def)

lemma round_val_12: "to_double 1208925819614629174706176 = Fin 1208925819614629174706176"
  unfolding to_double_def
  by (rule round_to_eqI [where e = "80" and m = "4503599627370496"]) (simp_all add: round_half_even_def)

lemma round_val_13: "to_double (5 / 730750818665451459101842416358141509827966271488) = Fin (5 / 730750818665451459101842416358141509827966271488)"
  unfolding to_double_def
  by (rule round_to_eqI [where e = "-157" and m = "5629499534213120"]) (simp_all add: round_half_even_def)

lemma round_val_14: "to_float (5 / 730750818665451459101842416358141509827966271488) = Fin 0"
  unfolding to_float_def
  by (rule round_to_subnormalI [where m = "0"]) (simp_all add: round_half_even_def)

lemma round_val_15: "to_float (- (67108865 / 67108864)) = Fin (- 1)"
  unfolding to_float_def
  by (rule round_to_eqI [where e = "0" and m = "-8388608"]) (simp_all add: round_half_even_def)

lemma round_val_16: "to_double (- (1 / 1000)) = Fin (- (1152921504606847 / 1152921504606846976))"
  unfolding to_double_def
  by (rule round_to_eqI [where e = "-10" and m = "-4611686018427388"]) (simp_all add: round_half_even_def)

lemma round_val_17: "to_float (- (1152921504606847 / 1152921504606846976)) = Fin (- (8589935 / 8589934592))"
  unfolding to_float_def
  by (rule round_to_eqI [where e = "-10" and m = "-8589935"]) (simp_all add: round_half_even_def)

lemma round_val_18: "to_float (- (8589935 / 8589934592)) = Fin (- (8589935 / 8589934592))"
  unfolding to_float_def
  by (rule round_to_eqI [where e = "-10" and m = "-8589935"]) (simp_all add: round_half_even_def)

lemma sqrt_val_19: "sqrt (1 / 1393796574908163946345982392040522594123776) = 1 / 1180591620717411303424"
  by (rule sqrt_of_square) simp_all

lemma round_val_20: "to_float (1 / 1180591620717411303424) = Fin (1 / 1180591620717411303424)"
  unfolding to_float_def
  by (rule round_to_eqI [where e = "-70" and m = "8388608"]) (simp_all add: round_half_even_def)

lemma round_val_21: "to_double (1 / 1393796574908163946345982392040522594123776) = Fin (1 / 1393796574908163946345982392040522594123776)"
  unfolding to_double_def
  by (rule round_to_eqI [where e = "-140" and m = "4503599627370496"]) (simp_all add: round_half_even_def)

lemma round_val_22: "to_double (1 / 1180591620717411303424) = Fin (1 / 1180591620717411303424)"
  unfolding to_double_def
  by (rule round_to_eqI [where e = "-70" and m = "4503599627370496"]) (simp_all add: round_half_even_def)

lemma round_val_23: "to_double 13937965749081639463459823920405225941237760 = Fin 13937965749081639463459823920405225941237760"
  unfolding to_double_def
  by (rule round_to_eqI [where e = "143" and m = "5629499534213120"]) (simp_all add: round_half_even_def)

lemma round_val_24: "to_float 13937965749081639463459823920405225941237760 = PInf"
  unfolding to_float_def
  by (rule round_to_overflowI [where e = "143" and m = "10485760", THEN trans])
     (simp_all add: round_half_even_def inf_of_sign_def)

text \<open>
  C2, as stated, fails on the code. At its own example, two nodes of radius 10 at distance
  100, the magnitude of the force is not \<open>0.01\<close>. Two nodes of radius 10 at distance
  \<open>2\<^sup>8\<^sup>0\<close> get the zero force, which points nowhere, and at distance \<open>2\<^sup>-\<^sup>7\<^sup>0\<close> an
  infinite and a NaN component. With a negative radius the force points away from \<open>b\<close>.
  And \<open>G\<close> is the \<^verbatim>\<open>float\<close> \<^verbatim>\<open>0.1f\<close>, which is not one tenth.
\<close>

theorem calculateForce_not_as_claimed:
  "hypot2 (vx (calculateForce (body_at 0 0 10) (body_at 100 0 10)))
          (vy (calculateForce (body_at 0 0 10) (body_at 100 0 10))) \<noteq> Fin (1 / 100) \<and>
   calculateForce (body_at 0 0 10) (body_at 1208925819614629174706176 0 10) =
     \<lparr>vx = Fin 0, vy = Fin 0\<rparr> \<and>
   calculateForce (body_at 0 0 (- 10)) (body_at 100 0 10) =
     \<lparr>vx = Fin (- (8589935 / 8589934592)), vy = Fin 0\<rparr> \<and>
   calculateForce (body_at 0 0 10) (body_at (1 / 1180591620717411303424) 0 10) =
     \<lparr>vx = PInf, vy = NaN\<rparr> \<and>
   G \<noteq> Fin (1 / 10)"
proof -
  have 1: "calculateForce (body_at 0 0 10) (body_at 100 0 10) =
             \<lparr>vx = Fin (8589935 / 8589934592), vy = Fin 0\<rparr>"
    by (simp add: calculateForce_def body_at_fields hypot2_def vsub_def fsub_def vmul_def vdiv_def
        G_def inf_of_sign_def Let_def
        sqrt_val_1 round_val_2 round_val_3 round_val_4 round_val_5)
  have 2: "hypot2 (Fin (8589935 / 8589934592)) (Fin 0) = Fin (8589935 / 8589934592)"
    by (simp add: hypot2_def sqrt_val_6 round_val_7 round_val_8)
  have 3: "calculateForce (body_at 0 0 10) (body_at 1208925819614629174706176 0 10) =
             \<lparr>vx = Fin 0, vy = Fin 0\<rparr>"
    by (simp add: calculateForce_def body_at_fields hypot2_def vsub_def fsub_def vmul_def vdiv_def
        G_def inf_of_sign_def Let_def
        sqrt_val_9 round_val_10 round_val_11 round_val_12 round_val_2 round_val_13 round_val_14)
  have 4: "calculateForce (body_at 0 0 (- 10)) (body_at 100 0 10) =
             \<lparr>vx = Fin (- (8589935 / 8589934592)), vy = Fin 0\<rparr>"
    by (simp add: calculateForce_def body_at_fields hypot2_def vsub_def fsub_def vmul_def vdiv_def
        G_def inf_of_sign_def Let_def
        sqrt_val_1 round_val_15 round_val_16 round_val_17 round_val_18)
  have 5: "calculateForce (body_at 0 0 10) (body_at (1 / 1180591620717411303424) 0 10) =
             \<lparr>vx = PInf, vy = NaN\<rparr>"
    by (simp add: calculateForce_def body_at_fields hypot2_def vsub_def fsub_def vmul_def vdiv_def
        G_def inf_of_sign_def Let_def
        sqrt_val_19 round_val_20 round_val_21 round_val_22 round_val_2 round_val_23 round_val_24)
  show ?thesis by (simp add: 1 2 3 4 5 G_def)
qed

text \<open>
  C2, amended. For two bodies with finite positions and radii whose distance, as the code
  computes it, is a non-zero \<open>d\<close>, \<open>calculateForce a b\<close> is the normalised
  \<open>position b - position a\<close> scaled by \<open>G * radius a * radius b / d\<^sup>2\<close>, every operation
  rounded as the code rounds it, with \<open>G = 0.1f\<close>. For positive radii no finite component of
  the force points away from \<open>b\<close>: it is zero or has the sign of the difference of the
  positions. For radii 10 and 10 at distance 100 the magnitude is exactly
  \<open>8589935 / 2\<^sup>3\<^sup>3\<close>, the \<^verbatim>\<open>float\<close> nearest to \<open>0.1 * 10 * 10 / 100\<^sup>2 = 0.001\<close>.
\<close>

theorem calculateForce_law:
  assumes "position a = \<lparr>vx = Fin ax, vy = Fin ay\<rparr>" "position b = \<lparr>vx = Fin bx, vy = Fin by\<rparr>"
    "getRadius (shape a) = Fin ra" "getRadius (shape b) = Fin rb"
    "narrow (hypot2 (vx (vsub (position b) (position a)))
                    (vy (vsub (position b) (position a)))) = Fin d"
    "d \<noteq> 0"
  shows "calculateForce a b =
           vmul (vdiv (vsub (position b) (position a)) (Fin d))
                (narrow (ddiv (fmul (fmul G (Fin ra)) (Fin rb)) (pow2 (Fin d)))) \<and>
         (0 < ra \<and> 0 < rb \<longrightarrow>
            (\<forall>fx fy. calculateForce a b = \<lparr>vx = Fin fx, vy = Fin fy\<rparr> \<longrightarrow>
               0 \<le> fx * (bx - ax) \<and> 0 \<le> fy * (by - ay))) \<and>
         (ra = 10 \<and> rb = 10 \<and> d = 100 \<longrightarrow>
            narrow (ddiv (fmul (fmul G (Fin ra)) (Fin rb)) (pow2 (Fin d))) =
              Fin (8589935 / 8589934592))"
proof -
  have A: "calculateForce a b =
           vmul (vdiv (vsub (position b) (position a)) (Fin d))
                (narrow (ddiv (fmul (fmul G (Fin ra)) (Fin rb)) (pow2 (Fin d))))"
    using assms(3-6) by (simp add: calculateForce_def Let_def)
  have d: "0 \<le> d" using assms(5) by (rule hypot2_narrow_nonneg)
  have B: "0 \<le> fx * (bx - ax) \<and> 0 \<le> fy * (by - ay)"
    if r: "0 < ra" "0 < rb" and f: "calculateForce a b = \<lparr>vx = Fin fx, vy = Fin fy\<rparr>"
    for fx fy
  proof -
    let ?M = "narrow (ddiv (fmul (fmul G (Fin ra)) (Fin rb)) (pow2 (Fin d)))"
    have x: "fmul (fdiv (fsub (Fin bx) (Fin ax)) (Fin d)) ?M = Fin fx"
      and y: "fmul (fdiv (fsub (Fin by) (Fin ay)) (Fin d)) ?M = Fin fy"
      using f unfolding A by (simp_all add: assms(1,2) vmul_def vdiv_def vsub_def)
    obtain m where m: "?M = Fin m" using fmul_FinD [OF x] by auto
    have "0 \<le> m" using m r by (rule forceMagnitude_nonneg)
    then show ?thesis
      using force_component_sign [OF x [unfolded m] d] force_component_sign [OF y [unfolded m] d]
      by simp
  qed
  have C: "narrow (ddiv (fmul (fmul G (Fin ra)) (Fin rb)) (pow2 (Fin d))) =
              Fin (8589935 / 8589934592)"
    if "ra = 10 \<and> rb = 10 \<and> d = 100"
    using that by (simp add: G_def round_val_2 round_val_3 round_val_4 round_val_5)
  show ?thesis using A B C by blast
qed

theorem calculateForce_law_witness:
  "calculateForce (body_at 0 0 10) (body_at 100 0 10) =
     \<lparr>vx = Fin (8589935 / 8589934592), vy = Fin 0\<rparr> \<and>
   narrow (ddiv (fmul (fmul G (Fin 10)) (Fin 10)) (pow2 (Fin 100))) =
     Fin (8589935 / 8589934592) \<and>
   0 \<le> 8589935 / 8589934592 * (100 - 0 :: real)"
proof -
  have h: "narrow (hypot2 (vx (vsub (position (body_at 100 0 10)) (position (body_at 0 0 10))))
                          (vy (vsub (position (body_at 100 0 10)) (position (body_at 0 0 10)))))
             = Fin 100"
    by (simp add: body_at_fields vsub_def fsub_def hypot2_def sqrt_val_1)
  have nz: "(100::real) \<noteq> 0" by simp
  note t = calculateForce_law [OF body_at_fields(1) body_at_fields(1) body_at_fields(4)
      body_at_fields(4) h nz]
  have m: "narrow (ddiv (fmul (fmul G (Fin 10)) (Fin 10)) (pow2 (Fin 100))) =
     Fin (8589935 / 8589934592)"
    using t by blast
  have 1: "calculateForce (body_at 0 0 10) (body_at 100 0 10) =
           vmul (vdiv (vsub (position (body_at 100 0 10)) (position (body_at 0 0 10))) (Fin 100))
                (narrow (ddiv (fmul (fmul G (Fin 10)) (Fin 10)) (pow2 (Fin 100))))"
    using t by (rule conjunct1)
  have 2: "calculateForce (body_at 0 0 10) (body_at 100 0 10) =
     \<lparr>vx = Fin (8589935 / 8589934592), vy = Fin 0\<rparr>"
    unfolding 1 m by (simp add: body_at_fields vsub_def fsub_def vdiv_def vmul_def round_val_2 round_val_3 round_val_4 round_val_5)
  have 3: "0 \<le> 8589935 / 8589934592 * (100 - 0 :: real)"
    using t 2 by simp
  show ?thesis using 2 m 3 by blast
qed

section \<open>The integrator\<close>

text \<open>
  C3. \<open>applyForces\<close> (the spec's integrate) adds \<open>force * timeStep\<close> to the velocity,
  then adds the new velocity times \<open>timeStep\<close> to the position, then sets the force to the
  zero vector. Of the body (position, velocity, force, radius) nothing else is read or
  written: the radius and the colour are kept, and the drawable of the node is moved to the
  new position.
\<close>

theorem applyForces_semi_implicit_euler:
  "velocity (applyForces node dt) = vadd (velocity node) (vmul (force node) dt) \<and>
   position (applyForces node dt) =
     vadd (position node) (vmul (velocity (applyForces node dt)) dt) \<and>
   force (applyForces node dt) = vzero \<and>
   getRadius (shape (applyForces node dt)) = getRadius (shape node) \<and>
   color (applyForces node dt) = color node \<and>
   m_position (shape (applyForces node dt)) = position (applyForces node dt) \<and>
   applyForces node dt = applyForces (node\<lparr>shape := s, color := c\<rparr>) dt
     \<lparr>shape := shape (applyForces node dt), color := color node\<rparr>"
  by (simp add: applyForces_def Let_def setPosition_def getRadius_def)

lemma applyForces_zero_force:
  assumes "velocity node = \<lparr>vx = Fin wx, vy = Fin wy\<rparr>"
    and "to_float wx = Fin wx" "to_float wy = Fin wy"
    and "force node = vzero"
  shows "applyForces node (Fin t) = node
     \<lparr>position := vadd (position node) (vmul (velocity node) (Fin t)),
      shape := setPosition (shape node) (vadd (position node) (vmul (velocity node) (Fin t)))\<rparr>"
  using assms by (simp add: applyForces_def Let_def vadd_def vmul_def vzero_def)

lemma steps_exact:
  assumes "to_float (wx * t) = Fin (wx * t)" "to_float (wy * t) = Fin (wy * t)"
    and "\<forall>k<N. to_float (px + wx * t * real (Suc k)) = Fin (px + wx * t * real (Suc k)) \<and>
               to_float (py + wy * t * real (Suc k)) = Fin (py + wy * t * real (Suc k))"
  shows "((\<lambda>p. vadd p (vmul \<lparr>vx = Fin wx, vy = Fin wy\<rparr> (Fin t))) ^^ N) \<lparr>vx = Fin px, vy = Fin py\<rparr> =
           \<lparr>vx = Fin (px + wx * t * real N), vy = Fin (py + wy * t * real N)\<rparr>"
  using assms(3)
proof (induction N)
  case 0
  show ?case by simp
next
  case (Suc N)
  have x: "px + wx * t * real N + wx * t = px + wx * t * real (Suc N)"
    and y: "py + wy * t * real N + wy * t = py + wy * t * real (Suc N)"
    by (simp_all add: algebra_simps)
  have "to_float (px + wx * t * real (Suc N)) = Fin (px + wx * t * real (Suc N))"
    "to_float (py + wy * t * real (Suc N)) = Fin (py + wy * t * real (Suc N))"
    using Suc.prems by blast+
  then show ?case
    using Suc.IH Suc.prems
    by (simp add: vadd_def vmul_def assms(1,2) x y del: of_nat_Suc)
qed

lemma round_c8_1: "to_float (13421773 / 134217728) = Fin (13421773 / 134217728)"
  unfolding to_float_def
  by (rule round_to_eqI [where e = "-4" and m = "13421773"]) (simp_all add: round_half_even_def)

lemma round_c8_2: "to_float (13421773 / 67108864) = Fin (13421773 / 67108864)"
  unfolding to_float_def
  by (rule round_to_eqI [where e = "-3" and m = "13421773"]) (simp_all add: round_half_even_def)

lemma round_c8_3: "to_float (40265319 / 134217728) = Fin (5033165 / 16777216)"
  unfolding to_float_def
  by (rule round_to_eqI [where e = "-2" and m = "10066330"]) (simp_all add: round_half_even_def)

lemma round_c8_4: "to_float 16777217 = Fin 16777216"
  unfolding to_float_def
  by (rule round_to_eqI [where e = "24" and m = "8388608"]) (simp_all add: round_half_even_def)

lemma round_c8_5: "to_float (3 / 2) = Fin (3 / 2)"
  unfolding to_float_def
  by (rule round_to_eqI [where e = "0" and m = "12582912"]) (simp_all add: round_half_even_def)

lemma round_c8_6: "to_float (5 / 2) = Fin (5 / 2)"
  unfolding to_float_def
  by (rule round_to_eqI [where e = "1" and m = "10485760"]) (simp_all add: round_half_even_def)

lemma round_c8_7: "to_float (11 / 2) = Fin (11 / 2)"
  unfolding to_float_def
  by (rule round_to_eqI [where e = "2" and m = "11534336"]) (simp_all add: round_half_even_def)

text \<open>
  C8, as stated, fails on the code. A node at the origin with velocity \<open>(1, 0)\<close> and the
  program's step \<open>0.1f\<close> is at \<open>5033165 / 2\<^sup>2\<^sup>4\<close> after three calls, which is neither
  \<open>3 * 0.1f\<close> nor \<open>3 / 10\<close>; a node at \<open>(2\<^sup>2\<^sup>4, 0)\<close> with velocity \<open>(1, 0)\<close> and step 1 has
  not moved after two calls.
\<close>

theorem applyForces_not_linear:
  "position (((\<lambda>n. applyForces n (Fin (13421773 / 134217728))) ^^ 3)
      ((body_at 0 0 10)\<lparr>velocity := \<lparr>vx = Fin 1, vy = Fin 0\<rparr>\<rparr>)) =
     \<lparr>vx = Fin (5033165 / 16777216), vy = Fin 0\<rparr> \<and>
   (5033165 / 16777216 :: real) \<noteq> 0 + 1 * (13421773 / 134217728) * 3 \<and>
   (5033165 / 16777216 :: real) \<noteq> 0 + 1 * (1 / 10) * 3 \<and>
   position (((\<lambda>n. applyForces n (Fin 1)) ^^ 2)
      ((body_at 16777216 0 10)\<lparr>velocity := \<lparr>vx = Fin 1, vy = Fin 0\<rparr>\<rparr>)) =
     \<lparr>vx = Fin 16777216, vy = Fin 0\<rparr> \<and>
   (16777216 :: real) \<noteq> 16777216 + 1 * 1 * 2"
  by (simp add: eval_nat_numeral applyForces_def Let_def body_at_fields body_at_def vadd_def
      vmul_def vzero_def round_c8_1 round_c8_2 round_c8_3 round_c8_4)

text \<open>
  C8, amended. A body with finite position, a finite velocity that is a \<^verbatim>\<open>float\<close>, and zero
  accumulated force, integrated \<open>N\<close> times with the same finite step \<open>t\<close>: the velocity is
  the initial one and the force is zero; the position is the initial one advanced \<open>N\<close>
  times by the \<^verbatim>\<open>float\<close> product of velocity and \<open>t\<close>, every addition rounded. It is the
  initial position plus velocity times \<open>t\<close> times \<open>N\<close> when that product and all the partial
  sums are \<^verbatim>\<open>float\<close>s, so that nothing is rounded.
\<close>

theorem applyForces_zero_force_steps:
  assumes "position node = \<lparr>vx = Fin px, vy = Fin py\<rparr>"
    and "velocity node = \<lparr>vx = Fin wx, vy = Fin wy\<rparr>"
    and "to_float wx = Fin wx" "to_float wy = Fin wy"
    and "force node = vzero"
  shows "velocity (((\<lambda>n. applyForces n (Fin t)) ^^ N) node) = velocity node \<and>
     force (((\<lambda>n. applyForces n (Fin t)) ^^ N) node) = vzero \<and>
     position (((\<lambda>n. applyForces n (Fin t)) ^^ N) node) =
       ((\<lambda>p. vadd p (vmul (velocity node) (Fin t))) ^^ N) (position node) \<and>
     (to_float (wx * t) = Fin (wx * t) \<and> to_float (wy * t) = Fin (wy * t) \<and>
      (\<forall>k<N. to_float (px + wx * t * real (Suc k)) = Fin (px + wx * t * real (Suc k)) \<and>
              to_float (py + wy * t * real (Suc k)) = Fin (py + wy * t * real (Suc k))) \<longrightarrow>
      position (((\<lambda>n. applyForces n (Fin t)) ^^ N) node) =
        \<lparr>vx = Fin (px + wx * t * real N), vy = Fin (py + wy * t * real N)\<rparr>)"
proof -
  have steps: "velocity (((\<lambda>n. applyForces n (Fin t)) ^^ N) node) = velocity node \<and>
     force (((\<lambda>n. applyForces n (Fin t)) ^^ N) node) = vzero \<and>
     position (((\<lambda>n. applyForces n (Fin t)) ^^ N) node) =
       ((\<lambda>p. vadd p (vmul (velocity node) (Fin t))) ^^ N) (position node)"
  proof (induction N)
    case 0
    show ?case using assms(5) by simp
  next
    case (Suc N)
    let ?m = "((\<lambda>n. applyForces n (Fin t)) ^^ N) node"
    have v: "velocity ?m = \<lparr>vx = Fin wx, vy = Fin wy\<rparr>" and f: "force ?m = vzero"
      using Suc.IH assms(2) by simp_all
    show ?case
      using Suc.IH by (simp add: applyForces_zero_force [OF v assms(3,4) f])
  qed
  then show ?thesis
    using steps_exact [of wx t wy N px py] by (simp add: assms(1,2))
qed

theorem applyForces_zero_force_steps_witness:
  "velocity (((\<lambda>n. applyForces n (Fin (1 / 2))) ^^ 4)
      ((body_at 1 2 10)\<lparr>velocity := \<lparr>vx = Fin 3, vy = Fin (- 4)\<rparr>\<rparr>)) =
     \<lparr>vx = Fin 3, vy = Fin (- 4)\<rparr> \<and>
   position (((\<lambda>n. applyForces n (Fin (1 / 2))) ^^ 4)
      ((body_at 1 2 10)\<lparr>velocity := \<lparr>vx = Fin 3, vy = Fin (- 4)\<rparr>\<rparr>)) =
     \<lparr>vx = Fin 7, vy = Fin (- 6)\<rparr>"
proof -
  have e: "\<forall>k<4. to_float (1 + 3 * (1 / 2) * real (Suc k)) = Fin (1 + 3 * (1 / 2) * real (Suc k)) \<and>
              to_float (2 + - 4 * (1 / 2) * real (Suc k)) = Fin (2 + - 4 * (1 / 2) * real (Suc k))"
  proof (intro allI impI)
    fix k :: nat
    assume "k < 4"
    then consider "k = 0" | "k = 1" | "k = 2" | "k = 3" by linarith
    then show "to_float (1 + 3 * (1 / 2) * real (Suc k)) = Fin (1 + 3 * (1 / 2) * real (Suc k)) \<and>
              to_float (2 + - 4 * (1 / 2) * real (Suc k)) = Fin (2 + - 4 * (1 / 2) * real (Suc k))"
      by cases (simp_all add: round_c8_5 round_c8_6 round_c8_7)
  qed
  have p: "to_float (3 * (1 / 2)) = Fin (3 * (1 / 2))" "to_float (- 4 * (1 / 2)) = Fin (- 4 * (1 / 2))"
    by (simp_all add: round_c8_5 round_c8_6 round_c8_7)
  let ?n = "(body_at 1 2 10)\<lparr>velocity := \<lparr>vx = Fin 3, vy = Fin (- 4)\<rparr>\<rparr>"
  have h: "position ?n = \<lparr>vx = Fin 1, vy = Fin 2\<rparr>"
    "velocity ?n = \<lparr>vx = Fin 3, vy = Fin (- 4)\<rparr>"
    "to_float 3 = Fin 3" "to_float (- 4) = Fin (- 4)" "force ?n = vzero"
    by (simp_all add: body_at_fields)
  note t = applyForces_zero_force_steps [OF h, where t = "1 / 2" and N = 4]
  have v: "velocity (((\<lambda>n. applyForces n (Fin (1 / 2))) ^^ 4) ?n) = velocity ?n"
    using t by (rule conjunct1)
  have "position (((\<lambda>n. applyForces n (Fin (1 / 2))) ^^ 4) ?n) =
          \<lparr>vx = Fin (1 + 3 * (1 / 2) * real 4), vy = Fin (2 + - 4 * (1 / 2) * real 4)\<rparr>"
    using t e p by blast
  then show ?thesis using v by (simp add: h)
qed

section \<open>Overlap resolution\<close>




lemma to_float_error:
  "to_float r = Fin v \<Longrightarrow> \<bar>v - r\<bar> \<le> \<bar>v\<bar> / 16777216 + 2 powi (- 150)"
  using round_to_error [of 24 "- 126" 127 r v] by (simp add: to_float_def)

lemma sqrt_ro_1: "sqrt 25 = 5"
  by (rule sqrt_of_square) simp_all

lemma round_ro_2: "to_float (- (3 / 5)) = Fin (- (5033165 / 8388608))"
  unfolding to_float_def
  by (rule round_to_eqI [where e = "-1" and m = "-10066330"]) (simp_all add: round_half_even_def)

lemma round_ro_3: "to_float (- (4 / 5)) = Fin (- (13421773 / 16777216))"
  unfolding to_float_def
  by (rule round_to_eqI [where e = "-1" and m = "-13421773"]) (simp_all add: round_half_even_def)

lemma round_ro_4: "to_float (- (15099495 / 8388608)) = Fin (- (15099495 / 8388608))"
  unfolding to_float_def
  by (rule round_to_eqI [where e = "0" and m = "-15099495"]) (simp_all add: round_half_even_def)

lemma round_ro_5: "to_float (- (40265319 / 16777216)) = Fin (- (5033165 / 2097152))"
  unfolding to_float_def
  by (rule round_to_eqI [where e = "1" and m = "-10066330"]) (simp_all add: round_half_even_def)

lemma round_ro_6: "to_float (- (5033165 / 2097152)) = Fin (- (5033165 / 2097152))"
  unfolding to_float_def
  by (rule round_to_eqI [where e = "1" and m = "-10066330"]) (simp_all add: round_half_even_def)

lemma round_ro_7: "to_float (40265319 / 8388608) = Fin (5033165 / 1048576)"
  unfolding to_float_def
  by (rule round_to_eqI [where e = "2" and m = "10066330"]) (simp_all add: round_half_even_def)

lemma round_ro_8: "to_float (13421773 / 2097152) = Fin (13421773 / 2097152)"
  unfolding to_float_def
  by (rule round_to_eqI [where e = "2" and m = "13421773"]) (simp_all add: round_half_even_def)





lemma resolveOverlap_example:
  "overlap (body_at 0 0 10) (body_at 3 4 1)"
  "position (fst (resolveOverlap (body_at 0 0 10) (body_at 3 4 1))) =
     \<lparr>vx = Fin (- (15099495 / 8388608)), vy = Fin (- (5033165 / 2097152))\<rparr>"
  "position (snd (resolveOverlap (body_at 0 0 10) (body_at 3 4 1))) =
     \<lparr>vx = Fin (5033165 / 1048576), vy = Fin (13421773 / 2097152)\<rparr>"
  by (simp_all add: resolveOverlap_def overlap_def body_at_fields hypot2_def vsub_def fsub_def vmul_def vdiv_def
        vadd_def Let_def
        sqrt_ro_1 round_ro_2 round_ro_3 round_ro_4 round_ro_5 round_ro_6 round_ro_7 round_ro_8)





text \<open>
  C9, as stated, fails on the code. For the nodes of radii 10 and 1 at \<open>(0, 0)\<close> and
  \<open>(3, 4)\<close> the displacement of the first is not the opposite of the displacement of the
  second in the first coordinate, and the sum of the positions is not \<open>(3, 4)\<close> any more.
\<close>

theorem resolveOverlap_not_opposite:
  "position (fst (resolveOverlap (body_at 0 0 10) (body_at 3 4 1))) = \<lparr>vx = Fin (- (15099495 / 8388608)), vy = Fin (- (5033165 / 2097152))\<rparr> \<and>
   position (snd (resolveOverlap (body_at 0 0 10) (body_at 3 4 1))) = \<lparr>vx = Fin (5033165 / 1048576), vy = Fin (13421773 / 2097152)\<rparr> \<and>
   - (15099495 / 8388608) - 0 \<noteq> - (5033165 / 1048576 - 3 :: real) \<and>
   - (15099495 / 8388608) + 5033165 / 1048576 \<noteq> (0 + 3 :: real)"
  using resolveOverlap_example by simp

text \<open>
  C9, amended. Two bodies with finite positions for which \<open>resolveOverlap\<close> yields finite
  positions: there is one displacement \<open>(wx, wy)\<close> that is added to the position of \<open>a\<close>
  and subtracted from the position of \<open>b\<close>, each result rounded to \<^verbatim>\<open>float\<close>. So the two
  displacements are opposite, and the sum of the two positions is kept, up to those two
  roundings: in each coordinate by at most the sum of the magnitudes of the two new
  coordinates divided by \<open>2\<^sup>2\<^sup>4\<close>, plus \<open>2\<^sup>-\<^sup>1\<^sup>4\<^sup>9\<close>.
\<close>

theorem resolveOverlap_opposite_up_to_rounding:
  assumes pa: "position a = \<lparr>vx = Fin ax, vy = Fin ay\<rparr>"
    and pb: "position b = \<lparr>vx = Fin bx, vy = Fin by\<rparr>"
    and pa': "position (fst (resolveOverlap a b)) = \<lparr>vx = Fin ax', vy = Fin ay'\<rparr>"
    and pb': "position (snd (resolveOverlap a b)) = \<lparr>vx = Fin bx', vy = Fin by'\<rparr>"
  shows "(\<exists>wx wy.
            \<bar>ax' - (ax + wx)\<bar> \<le> \<bar>ax'\<bar> / 16777216 + 2 powi (- 150) \<and>
            \<bar>bx' - (bx - wx)\<bar> \<le> \<bar>bx'\<bar> / 16777216 + 2 powi (- 150) \<and>
            \<bar>ay' - (ay + wy)\<bar> \<le> \<bar>ay'\<bar> / 16777216 + 2 powi (- 150) \<and>
            \<bar>by' - (by - wy)\<bar> \<le> \<bar>by'\<bar> / 16777216 + 2 powi (- 150)) \<and>
         \<bar>(ax' - ax) + (bx' - bx)\<bar> \<le> (\<bar>ax'\<bar> + \<bar>bx'\<bar>) / 16777216 + 2 powi (- 149) \<and>
         \<bar>(ay' - ay) + (by' - by)\<bar> \<le> (\<bar>ay'\<bar> + \<bar>by'\<bar>) / 16777216 + 2 powi (- 149) \<and>
         \<bar>(ax' + bx') - (ax + bx)\<bar> \<le> (\<bar>ax'\<bar> + \<bar>bx'\<bar>) / 16777216 + 2 powi (- 149) \<and>
         \<bar>(ay' + by') - (ay + by)\<bar> \<le> (\<bar>ay'\<bar> + \<bar>by'\<bar>) / 16777216 + 2 powi (- 149)"
proof -
  define W where "W = vmul
     (vdiv (vsub (position a) (position b))
        (narrow (hypot2 (vx (vsub (position a) (position b)))
                        (vy (vsub (position a) (position b))))))
     (fdiv (fsub (fadd (getRadius (shape a)) (getRadius (shape b)))
              (narrow (hypot2 (vx (vsub (position a) (position b)))
                              (vy (vsub (position a) (position b))))))
        (Fin 2))"
  have A: "vadd (position a) W = \<lparr>vx = Fin ax', vy = Fin ay'\<rparr>"
    and B: "vsub (position b) W = \<lparr>vx = Fin bx', vy = Fin by'\<rparr>"
    using pa' pb' by (simp_all add: resolveOverlap_def Let_def W_def)
  have rax: "fadd (Fin ax) (vx W) = Fin ax'" and ray: "fadd (Fin ay) (vy W) = Fin ay'"
    using A by (simp_all add: vadd_def pa)
  obtain wx where wx: "vx W = Fin wx" "to_float (ax + wx) = Fin ax'"
    using fadd_FinD [OF rax] by auto
  obtain wy where wy: "vy W = Fin wy" "to_float (ay + wy) = Fin ay'"
    using fadd_FinD [OF ray] by auto
  have rbx: "to_float (bx - wx) = Fin bx'" and rby: "to_float (by - wy) = Fin by'"
    using B by (simp_all add: vsub_def fsub_def pb wx wy)
  note e = to_float_error [OF wx(2)] to_float_error [OF rbx]
    to_float_error [OF wy(2)] to_float_error [OF rby]
  have two: "(2::real) powi (- 149) = 2 powi (- 150) + 2 powi (- 150)" by simp
  have sx: "\<bar>(ax' + bx') - (ax + bx)\<bar> \<le> (\<bar>ax'\<bar> + \<bar>bx'\<bar>) / 16777216 + 2 powi (- 149)"
    using e(1,2) unfolding two by (simp add: add_divide_distrib)
  have sy: "\<bar>(ay' + by') - (ay + by)\<bar> \<le> (\<bar>ay'\<bar> + \<bar>by'\<bar>) / 16777216 + 2 powi (- 149)"
    using e(3,4) unfolding two by (simp add: add_divide_distrib)
  have dx: "(ax' - ax) + (bx' - bx) = (ax' + bx') - (ax + bx)"
    and dy: "(ay' - ay) + (by' - by) = (ay' + by') - (ay + by)" by simp_all
  show ?thesis
    using e sx sy unfolding dx dy by blast
qed

theorem resolveOverlap_opposite_up_to_rounding_witness:
  "position (fst (resolveOverlap (body_at 0 0 10) (body_at 3 4 1))) = \<lparr>vx = Fin (- (15099495 / 8388608)), vy = Fin (- (5033165 / 2097152))\<rparr> \<and>
   position (snd (resolveOverlap (body_at 0 0 10) (body_at 3 4 1))) = \<lparr>vx = Fin (5033165 / 1048576), vy = Fin (13421773 / 2097152)\<rparr> \<and>
   \<bar>(- (15099495 / 8388608) + 5033165 / 1048576) - (0 + 3)\<bar>
     \<le> (\<bar>- (15099495 / 8388608)\<bar> + \<bar>5033165 / 1048576\<bar>) / 16777216 + (2::real) powi (- 149) \<and>
   \<bar>(- (5033165 / 2097152) + 13421773 / 2097152) - (0 + 4)\<bar>
     \<le> (\<bar>- (5033165 / 2097152)\<bar> + \<bar>13421773 / 2097152\<bar>) / 16777216 + (2::real) powi (- 149)"
  using resolveOverlap_opposite_up_to_rounding
    [OF body_at_fields(1) body_at_fields(1) resolveOverlap_example(2,3)]
    resolveOverlap_example(2,3)
  by blast

text \<open>
  C5. The claim is that two coincident bodies are separated along some fixed axis with no
  division by the zero distance. The code has no such case: two nodes of radius 10 at
  \<open>(5, 5)\<close> overlap, \<open>resolveOverlap\<close> divides the zero direction by the zero distance, and
  both positions become NaN.
\<close>

theorem resolveOverlap_coincident_is_NaN:
  "overlap (body_at 5 5 10) (body_at 5 5 10) \<and>
   position (fst (resolveOverlap (body_at 5 5 10) (body_at 5 5 10))) = \<lparr>vx = NaN, vy = NaN\<rparr> \<and>
   position (snd (resolveOverlap (body_at 5 5 10) (body_at 5 5 10))) = \<lparr>vx = NaN, vy = NaN\<rparr>"
  by (simp add: overlap_def resolveOverlap_def body_at_fields hypot2_def vsub_def fsub_def vmul_def
      vdiv_def vadd_def Let_def)

section \<open>The centroid branch\<close>

text \<open>
  C6. The claim is that a zero total mass is guarded and contributes a zero force. The code
  divides by it: for a single node at \<open>(400, 0)\<close>, with the view centred at \<open>(400, 300)\<close>
  and 800 wide, the ratio \<open>800 / 300\<close> is not below \<open>theta\<close>, the loop skips the node
  itself, the centre of mass is \<open>(0, 0) / 0\<close>, and the force of the node becomes NaN.
\<close>

theorem applyBarnesHut_single_body_is_NaN:
  "applyBarnesHut 0 [body_at 400 0 10] \<lparr>vx = Fin 400, vy = Fin 300\<rparr> (Fin 800) =
     [(body_at 400 0 10)\<lparr>force := \<lparr>vx = NaN, vy = NaN\<rparr>\<rparr>]"
proof -
  have s: "sqrt 90000 = 300" by (rule sqrt_of_square) simp_all
  show ?thesis
    by (simp add: applyBarnesHut_def centroid_body_def calculateForce_def body_at_def
        hypot2_def vsub_def fsub_def vmul_def vdiv_def vadd_def vzero_def theta_def G_def
        getRadius_def setPosition_def CircleShape_new_def Let_def s to_double_8_3)
qed

section \<open>Force accumulation\<close>

lemma updateForces_body_frame:
  "length (updateForces_body i j nodes) = length nodes \<and>
   (\<forall>k<length nodes.
      position (updateForces_body i j nodes ! k) = position (nodes ! k) \<and>
      velocity (updateForces_body i j nodes ! k) = velocity (nodes ! k) \<and>
      shape (updateForces_body i j nodes ! k) = shape (nodes ! k) \<and>
      color (updateForces_body i j nodes ! k) = color (nodes ! k) \<and>
      (k \<noteq> i \<longrightarrow> updateForces_body i j nodes ! k = nodes ! k))"
  by (cases "i < length nodes") (auto simp add: updateForces_body_def nth_list_update)

lemma updateForces_fold_frame:
  "length (fold (updateForces_body i) js nodes) = length nodes \<and>
   (\<forall>k<length nodes.
      position (fold (updateForces_body i) js nodes ! k) = position (nodes ! k) \<and>
      velocity (fold (updateForces_body i) js nodes ! k) = velocity (nodes ! k) \<and>
      shape (fold (updateForces_body i) js nodes ! k) = shape (nodes ! k) \<and>
      color (fold (updateForces_body i) js nodes ! k) = color (nodes ! k) \<and>
      (k \<noteq> i \<longrightarrow> fold (updateForces_body i) js nodes ! k = nodes ! k))"
proof (induction js arbitrary: nodes)
  case Nil
  show ?case by simp
next
  case (Cons j js)
  show ?case
    using Cons.IH [of "updateForces_body i j nodes"] updateForces_body_frame [of i j nodes]
    by simp
qed

text \<open>
  C10. \<open>updateForces\<close> for the node at index \<open>i\<close> keeps the length of the vector, the
  position, velocity, shape (hence radius) and colour of every node, and every node other
  than the one at \<open>i\<close> as a whole, accumulated force included: only the force of node \<open>i\<close>
  can change.
\<close>

theorem updateForces_frame:
  "length (updateForces i nodes) = length nodes \<and>
   (\<forall>k<length nodes.
      position (updateForces i nodes ! k) = position (nodes ! k) \<and>
      velocity (updateForces i nodes ! k) = velocity (nodes ! k) \<and>
      shape (updateForces i nodes ! k) = shape (nodes ! k) \<and>
      color (updateForces i nodes ! k) = color (nodes ! k) \<and>
      (k \<noteq> i \<longrightarrow> updateForces i nodes ! k = nodes ! k))"
  unfolding updateForces_def by (rule updateForces_fold_frame)

theorem updateForces_frame_witness:
  "length (updateForces 0 [body_at 0 0 10, body_at 100 0 10]) = 2 \<and>
   updateForces 0 [body_at 0 0 10, body_at 100 0 10] ! 1 = body_at 100 0 10 \<and>
   position (updateForces 0 [body_at 0 0 10, body_at 100 0 10] ! 0) = \<lparr>vx = Fin 0, vy = Fin 0\<rparr> \<and>
   velocity (updateForces 0 [body_at 0 0 10, body_at 100 0 10] ! 0) = vzero \<and>
   getRadius (shape (updateForces 0 [body_at 0 0 10, body_at 100 0 10] ! 0)) = Fin 10"
proof -
  note t = updateForces_frame [of 0 "[body_at 0 0 10, body_at 100 0 10]"]
  have l: "length (updateForces 0 [body_at 0 0 10, body_at 100 0 10]) = 2"
    using t by simp
  have k1: "updateForces 0 [body_at 0 0 10, body_at 100 0 10] ! 1 = body_at 100 0 10"
    using t [THEN conjunct2, THEN spec, of 1] by simp
  have k0: "position (updateForces 0 [body_at 0 0 10, body_at 100 0 10] ! 0) = \<lparr>vx = Fin 0, vy = Fin 0\<rparr>"
    "velocity (updateForces 0 [body_at 0 0 10, body_at 100 0 10] ! 0) = vzero"
    "getRadius (shape (updateForces 0 [body_at 0 0 10, body_at 100 0 10] ! 0)) = Fin 10"
    using t [THEN conjunct2, THEN spec, of 0] by (simp_all add: body_at_fields)
  show ?thesis using l k1 k0 by blast
qed

section \<open>The tick\<close>

lemma resolveOverlap_force:
  "force (fst (resolveOverlap a b)) = force a \<and> force (snd (resolveOverlap a b)) = force b"
  by (simp add: resolveOverlap_def Let_def)

lemma resolve_pair_force:
  "length (resolve_pair i j nodes) = length nodes \<and>
   (\<forall>n<length nodes. force (resolve_pair i j nodes ! n) = force (nodes ! n))"
proof -
  have "force (nodes[i := fst (resolveOverlap (nodes ! i) (nodes ! j)),
                     j := snd (resolveOverlap (nodes ! i) (nodes ! j))] ! n) = force (nodes ! n)"
    if "n < length nodes" for n
  proof (cases "n = j")
    case True
    then show ?thesis using that by (simp add: resolveOverlap_force)
  next
    case False
    then show ?thesis using that by (cases "n = i") (simp_all add: resolveOverlap_force)
  qed
  then show ?thesis by (simp add: resolve_pair_def Let_def)
qed

lemma resolve_row_force:
  "list_all (\<lambda>n. force n = vzero) nodes \<Longrightarrow>
   list_all (\<lambda>n. force n = vzero) (fold (resolve_pair i) js nodes)"
  by (induction js arbitrary: nodes) (simp_all add: resolve_pair_force list_all_length)

lemma resolve_all_force:
  "list_all (\<lambda>n. force n = vzero) nodes \<Longrightarrow>
   list_all (\<lambda>n. force n = vzero) (fold (\<lambda>i ns. fold (resolve_pair i) (js ns) ns) is nodes)"
  by (induction "is" arbitrary: nodes) (simp_all add: resolve_row_force)

lemma main_tick_force: "list_all (\<lambda>n. force n = vzero) (main_tick center size' nodes)"
  unfolding main_tick_def Let_def
  by (rule resolve_all_force [where js = "\<lambda>ns. [0..<length ns]"])
     (simp add: list_all_length applyForces_def Let_def)

text \<open>
  C7. At the top of every pass of the main loop the accumulated force of every node is
  the zero vector: the set-up zeroes it, and in each pass \<open>applyForces\<close> clears it after
  the two accumulation loops have written it and before the overlaps, which do not touch it.
\<close>

theorem reachable_force_zero:
  "reachable nodes \<Longrightarrow> list_all (\<lambda>n. force n = vzero) nodes"
proof (induction rule: reachable.induct)
  case (init nodes)
  then show ?case by (simp add: main_init_def list_all_iff)
next
  case (step nodes center size')
  show ?case by (rule main_tick_force)
qed

theorem reachable_force_zero_witness:
  "main_init (map (\<lambda>k. body_at (real k) (real k) 10) [0..<50]) \<and>
   list_all (\<lambda>n. force n = vzero) (map (\<lambda>k. body_at (real k) (real k) 10) [0..<50]) \<and>
   reachable (main_tick \<lparr>vx = Fin 400, vy = Fin 300\<rparr> (Fin 800)
                (map (\<lambda>k. body_at (real k) (real k) 10) [0..<50])) \<and>
   list_all (\<lambda>n. force n = vzero)
     (main_tick \<lparr>vx = Fin 400, vy = Fin 300\<rparr> (Fin 800)
        (map (\<lambda>k. body_at (real k) (real k) 10) [0..<50]))"
proof -
  have i: "main_init (map (\<lambda>k. body_at (real k) (real k) 10) [0..<50])"
    by (auto simp add: main_init_def body_at_def list_all_iff vzero_def)
  have r0: "reachable (map (\<lambda>k. body_at (real k) (real k) 10) [0..<50])"
    using i by (rule reachable.init)
  have r1: "reachable (main_tick \<lparr>vx = Fin 400, vy = Fin 300\<rparr> (Fin 800)
                (map (\<lambda>k. body_at (real k) (real k) 10) [0..<50]))"
    using r0 by (rule reachable.step)
  show ?thesis
    using i reachable_force_zero [OF r0] r1 reachable_force_zero [OF r1] by blast
qed

end
